theory Spec2Isabelle
  imports Complex_Main "HOL-Library.Sublist" "HOL-Library.AList"
begin

section \<open>Python values used by \<open>pvsyst_parser.py\<close>\<close>

text \<open>
  The parser works on Python \<open>str\<close>, \<open>int\<close> and \<open>float\<close> values and builds a \<open>dict\<close>
  per device. A Python string is a sequence of code points; a HOL \<open>char\<close> has 256 values
  and is read here as the code point of the same number (U+0000 to U+00FF), so the model
  covers every Latin-1 string. The character classes below are the ones the Python
  methods use on that range.

  A Python \<open>float\<close> is modelled as an extended rational: the two infinities and NaN are
  kept (\<open>float\<close> parses \<open>inf\<close> and \<open>nan\<close>), finite arithmetic is exact. The binary
  rounding of IEEE doubles, overflow to infinity and the sign of zero are not modelled.
\<close>

datatype pyfloat = Fin rat | PInf | NInf | NaN

datatype pyval = PyStr string | PyInt int | PyFloat pyfloat

datatype exn =
    ValueError_float string
  | ValueError_int string
  | ZeroDivisionError
  | TypeError
  | KeyError string

text \<open>
  \<open>ValueError_float s\<close> is the exception of \<open>float(s)\<close>, whose text is
  \<open>could not convert string to float:\<close> followed by the \<open>repr\<close> of \<open>s\<close>;
  \<open>ValueError_int s\<close> is the one of \<open>int(s)\<close>.
  A diagnostic is one call \<open>st.error(f"<prefix>{str(e)}")\<close>.
\<close>

datatype diagnostic = StError string exn

type_synonym dict = "(string \<times> pyval) list"

subsection \<open>Character classes\<close>

definition isspace :: "char \<Rightarrow> bool" where
  "isspace c = (let n = (of_char c :: nat)
     in (9 \<le> n \<and> n \<le> 13) \<or> (28 \<le> n \<and> n \<le> 32) \<or> n = 133 \<or> n = 160)"

text \<open>\<open>str.isdigit\<close> holds of the ten decimal digits and of the superscripts
  U+00B2, U+00B3 and U+00B9.\<close>

definition isdigit_chr :: "char \<Rightarrow> bool" where
  "isdigit_chr c = (let n = (of_char c :: nat)
     in (48 \<le> n \<and> n \<le> 57) \<or> n = 178 \<or> n = 179 \<or> n = 185)"

definition lower_chr :: "char \<Rightarrow> char" where
  "lower_chr c = (let n = (of_char c :: nat)
     in if (65 \<le> n \<and> n \<le> 90) \<or> (192 \<le> n \<and> n \<le> 222 \<and> n \<noteq> 215)
        then char_of (n + 32) else c)"

text \<open>The digits and the white space that \<open>float\<close> and \<open>int\<close> accept: code points below
  127 are taken as they are (so only tab to carriage return and the blank are skipped),
  the two Latin-1 spaces above count as blanks. The bound that recent interpreters put
  on the number of digits given to \<open>int\<close> is not modelled.\<close>

definition is_decimal :: "char \<Rightarrow> bool" where
  "is_decimal c = (let n = (of_char c :: nat) in 48 \<le> n \<and> n \<le> 57)"

definition digit_val :: "char \<Rightarrow> int" where
  "digit_val c = of_char c - 48"

definition num_space :: "char \<Rightarrow> bool" where
  "num_space c = (let n = (of_char c :: nat)
     in (9 \<le> n \<and> n \<le> 13) \<or> n = 32 \<or> n = 133 \<or> n = 160)"

subsection \<open>String methods\<close>

definition str_strip :: "string \<Rightarrow> string" where
  "str_strip s = rev (dropWhile isspace (rev (dropWhile isspace s)))"

definition str_lower :: "string \<Rightarrow> string" where
  "str_lower s = map lower_chr s"

definition str_isdigit :: "string \<Rightarrow> bool" where
  "str_isdigit s = (s \<noteq> [] \<and> list_all isdigit_chr s)"

text \<open>\<open>s.split(sep)\<close> for a one-character separator. The result is never an empty
  list (\<open>str_split_not_Nil\<close> below), so a character that is not the separator always
  joins the first token of the rest.\<close>

fun str_split :: "char \<Rightarrow> string \<Rightarrow> string list" where
  "str_split sep [] = [[]]"
| "str_split sep (c # cs) =
     (if c = sep then [] # str_split sep cs
      else (case str_split sep cs of
              [] \<Rightarrow> [[c]]
            | t # ts \<Rightarrow> (c # t) # ts))"

text \<open>\<open>s.replace(old, new)\<close>: the occurrences of \<open>old\<close> are replaced from the left,
  without overlap; an empty \<open>old\<close> matches before every character and at the end.\<close>

function replace_from :: "string \<Rightarrow> string \<Rightarrow> string \<Rightarrow> string" where
  "replace_from old new s =
     (if old = [] \<or> s = [] then s
      else if prefix old s then new @ replace_from old new (drop (length old) s)
      else hd s # replace_from old new (tl s))"
  by pat_completeness auto
termination
  by (relation "measure (\<lambda>(old, new, s). length s)") (auto simp: neq_Nil_conv)

declare replace_from.simps [simp del]

definition str_replace :: "string \<Rightarrow> string \<Rightarrow> string \<Rightarrow> string" where
  "str_replace old new s =
     (if old = [] then new @ concat (map (\<lambda>c. c # new) s) else replace_from old new s)"

subsection \<open>\<open>float(s)\<close> and \<open>int(s)\<close>\<close>

definition num_strip :: "string \<Rightarrow> string" where
  "num_strip s = rev (dropWhile num_space (rev (dropWhile num_space s)))"

fun take_sign :: "string \<Rightarrow> int \<times> string" where
  "take_sign [] = (1, [])"
| "take_sign (c # cs) =
     (if c = CHR ''+'' then (1, cs) else if c = CHR ''-'' then (- 1, cs) else (1, c # cs))"

text \<open>\<open>digitpart ::= digit (["_"] digit)*\<close>. The result is the value read, the number of
  digits read, and the rest of the string.\<close>

fun digits_more :: "int \<times> nat \<Rightarrow> string \<Rightarrow> (int \<times> nat) \<times> string" where
  "digits_more acc [] = (acc, [])"
| "digits_more (v, k) [c] =
     (if is_decimal c then ((v * 10 + digit_val c, Suc k), []) else ((v, k), [c]))"
| "digits_more (v, k) (c # d # cs) =
     (if is_decimal c then digits_more (v * 10 + digit_val c, Suc k) (d # cs)
      else if c = CHR ''_'' \<and> is_decimal d then digits_more (v, k) (d # cs)
      else ((v, k), c # d # cs))"

definition digitpart :: "string \<Rightarrow> ((int \<times> nat) \<times> string) option" where
  "digitpart s = (case s of
       [] \<Rightarrow> None
     | c # cs \<Rightarrow> if is_decimal c then Some (digits_more (digit_val c, 1) cs) else None)"

text \<open>\<open>number ::= [digitpart] "." digitpart | digitpart ["."]\<close>. The result is the
  mantissa as an integer, the number of digits after the point, and the rest.\<close>

definition number :: "string \<Rightarrow> (int \<times> nat \<times> string) option" where
  "number s = (case digitpart s of
       Some ((ip, n), r) \<Rightarrow>
         (case r of
            [] \<Rightarrow> Some (ip, 0, [])
          | c # r' \<Rightarrow>
              if c = CHR ''.'' then
                (case digitpart r' of
                   Some ((fp, k), r'') \<Rightarrow> Some (ip * 10 ^ k + fp, k, r'')
                 | None \<Rightarrow> Some (ip, 0, r'))
              else Some (ip, 0, r))
     | None \<Rightarrow>
         (case s of
            [] \<Rightarrow> None
          | c # r' \<Rightarrow>
              if c = CHR ''.'' then
                (case digitpart r' of
                   Some ((fp, k), r'') \<Rightarrow> Some (fp, k, r'')
                 | None \<Rightarrow> None)
              else None))"

text \<open>\<open>exponent ::= ("e" | "E") [sign] digitpart\<close>, optional, up to the end of the
  string.\<close>

definition exponent :: "string \<Rightarrow> int option" where
  "exponent s = (case s of
       [] \<Rightarrow> Some 0
     | c # r \<Rightarrow>
         if c = CHR ''e'' \<or> c = CHR ''E'' then
           (case digitpart (snd (take_sign r)) of
              Some ((e, n), rest) \<Rightarrow> if rest = [] then Some (fst (take_sign r) * e) else None
            | None \<Rightarrow> None)
         else None)"

definition scale10 :: "rat \<Rightarrow> int \<Rightarrow> rat" where
  "scale10 m e = (if 0 \<le> e then m * 10 ^ nat e else m / 10 ^ nat (- e))"

definition py_float :: "string \<Rightarrow> exn + pyfloat" where
  "py_float s =
     (let t = num_strip s; sg = fst (take_sign t); r = snd (take_sign t); l = str_lower r
      in if l = ''inf'' \<or> l = ''infinity'' then Inr (if sg = 1 then PInf else NInf)
         else if l = ''nan'' then Inr NaN
         else (case number r of
                 None \<Rightarrow> Inl (ValueError_float s)
               | Some (m, k, r') \<Rightarrow>
                   (case exponent r' of
                      None \<Rightarrow> Inl (ValueError_float s)
                    | Some e \<Rightarrow> Inr (Fin (scale10 (of_int (sg * m)) (e - int k))))))"

definition py_int :: "string \<Rightarrow> exn + int" where
  "py_int s =
     (let t = num_strip s
      in case digitpart (snd (take_sign t)) of
           Some ((n, k), rest) \<Rightarrow>
             if rest = [] then Inr (fst (take_sign t) * n) else Inl (ValueError_int s)
         | None \<Rightarrow> Inl (ValueError_int s))"

subsection \<open>Arithmetic on floats\<close>

fun fsgn :: "pyfloat \<Rightarrow> int" where
  "fsgn (Fin a) = (if a = 0 then 0 else if 0 < a then 1 else - 1)"
| "fsgn PInf = 1"
| "fsgn NInf = - 1"
| "fsgn NaN = 0"

definition of_sign :: "int \<Rightarrow> pyfloat" where
  "of_sign s = (if s = 0 then NaN else if 0 < s then PInf else NInf)"

fun fmul :: "pyfloat \<Rightarrow> pyfloat \<Rightarrow> pyfloat" where
  "fmul NaN y = NaN"
| "fmul x NaN = NaN"
| "fmul (Fin a) (Fin b) = Fin (a * b)"
| "fmul x y = of_sign (fsgn x * fsgn y)"

text \<open>The quotient for a divisor that is not zero (Python raises on a zero divisor
  before dividing, see \<open>py_truediv\<close>).\<close>

fun fdiv :: "pyfloat \<Rightarrow> pyfloat \<Rightarrow> pyfloat" where
  "fdiv NaN y = NaN"
| "fdiv x NaN = NaN"
| "fdiv (Fin a) (Fin b) = Fin (a / b)"
| "fdiv (Fin a) y = Fin 0"
| "fdiv x (Fin b) = of_sign (fsgn x * fsgn (Fin b))"
| "fdiv x y = NaN"

fun fless :: "pyfloat \<Rightarrow> pyfloat \<Rightarrow> bool" where
  "fless NaN y = False"
| "fless x NaN = False"
| "fless (Fin a) (Fin b) = (a < b)"
| "fless x NInf = False"
| "fless PInf y = False"
| "fless x y = True"

text \<open>\<open>round(x, n)\<close> rounds the exact value of \<open>x\<close> to \<open>n\<close> decimals, a tie to the even
  neighbour; infinities and NaN round to themselves.\<close>

definition round_half_even :: "rat \<Rightarrow> int" where
  "round_half_even q =
     (let f = \<lfloor>q\<rfloor>; d = q - of_int f
      in if d < 1 / 2 then f else if 1 / 2 < d then f + 1 else if even f then f else f + 1)"

fun fround :: "pyfloat \<Rightarrow> nat \<Rightarrow> pyfloat" where
  "fround (Fin a) n = Fin (of_int (round_half_even (a * 10 ^ n)) / 10 ^ n)"
| "fround x n = x"

subsection \<open>Operators on Python values\<close>

fun to_float :: "pyval \<Rightarrow> pyfloat option" where
  "to_float (PyInt n) = Some (Fin (of_int n))"
| "to_float (PyFloat x) = Some x"
| "to_float (PyStr s) = None"

definition py_truediv :: "pyval \<Rightarrow> pyval \<Rightarrow> exn + pyval" where
  "py_truediv a b = (case (to_float a, to_float b) of
       (Some x, Some y) \<Rightarrow> if y = Fin 0 then Inl ZeroDivisionError else Inr (PyFloat (fdiv x y))
     | _ \<Rightarrow> Inl TypeError)"

fun py_mul :: "pyval \<Rightarrow> pyval \<Rightarrow> exn + pyval" where
  "py_mul (PyInt m) (PyInt n) = Inr (PyInt (m * n))"
| "py_mul (PyStr s) (PyInt n) = Inr (PyStr (concat (replicate (nat n) s)))"
| "py_mul (PyInt n) (PyStr s) = Inr (PyStr (concat (replicate (nat n) s)))"
| "py_mul (PyStr s) y = Inl TypeError"
| "py_mul x (PyStr s) = Inl TypeError"
| "py_mul (PyFloat x) (PyFloat y) = Inr (PyFloat (fmul x y))"
| "py_mul (PyFloat x) (PyInt n) = Inr (PyFloat (fmul x (Fin (of_int n))))"
| "py_mul (PyInt m) (PyFloat y) = Inr (PyFloat (fmul (Fin (of_int m)) y))"

text \<open>\<open>v > n\<close> for an integer literal \<open>n\<close>.\<close>

fun py_gt_int :: "pyval \<Rightarrow> int \<Rightarrow> exn + bool" where
  "py_gt_int (PyInt m) n = Inr (n < m)"
| "py_gt_int (PyFloat x) n = Inr (fless (Fin (of_int n)) x)"
| "py_gt_int (PyStr s) n = Inl TypeError"

text \<open>\<open>round(v, n)\<close> for \<open>n \<ge> 0\<close>: an \<open>int\<close> is returned as it is.\<close>

fun py_round :: "pyval \<Rightarrow> nat \<Rightarrow> exn + pyval" where
  "py_round (PyInt m) n = Inr (PyInt m)"
| "py_round (PyFloat x) n = Inr (PyFloat (fround x n))"
| "py_round (PyStr s) n = Inl TypeError"


definition getitem :: "dict \<Rightarrow> string \<Rightarrow> exn + pyval" where
  "getitem d k = (case map_of d k of None \<Rightarrow> Inl (KeyError k) | Some v \<Rightarrow> Inr v)"

definition setitem :: "dict \<Rightarrow> string \<Rightarrow> pyval \<Rightarrow> dict" where
  "setitem d k v = AList.update k v d"

text \<open>Sequencing of steps that may raise.\<close>

fun bind :: "exn + 'a \<Rightarrow> ('a \<Rightarrow> exn + 'b) \<Rightarrow> exn + 'b" where
  "bind (Inl e) f = Inl e"
| "bind (Inr x) f = f x"

section \<open>The parser\<close>

subsection \<open>\<open>parse_frequency\<close>\<close>

text \<open>The helper nested in \<open>parse_inverter_data\<close>. It returns the \<open>int\<close> 0 or 50, or
  the \<open>float\<close> read; the bare \<open>except\<close> turns every exception of \<open>float\<close> into 0.\<close>

definition parse_frequency :: "string \<Rightarrow> pyval" where
  "parse_frequency freq_str =
     (if freq_str = [] then PyInt 0
      else let s = str_lower (str_strip freq_str)
           in if sublist ''50/60'' s then PyInt 50
              else (case py_float (str_strip (str_replace ''hz'' [] s)) of
                      Inr x \<Rightarrow> PyFloat x
                    | Inl e \<Rightarrow> PyInt 0))"

subsection \<open>The conditional expressions of the two dict displays\<close>

text \<open>\<open>str(fields[i]).strip() if len(fields) > i else ""\<close>\<close>

definition str_field :: "string list \<Rightarrow> nat \<Rightarrow> exn + pyval" where
  "str_field fields i =
     (if length fields > i then Inr (PyStr (str_strip (fields ! i))) else Inr (PyStr []))"

text \<open>\<open>float(fields[i]) if len(fields) > i and fields[i] and fields[i].strip() else 0\<close>\<close>

definition float_field :: "string list \<Rightarrow> nat \<Rightarrow> exn + pyval" where
  "float_field fields i =
     (if length fields > i \<and> fields ! i \<noteq> [] \<and> str_strip (fields ! i) \<noteq> []
      then bind (py_float (fields ! i)) (\<lambda>x. Inr (PyFloat x))
      else Inr (PyInt 0))"

text \<open>\<open>int(fields[i]) if len(fields) > i and fields[i] and fields[i].strip().isdigit() else 0\<close>\<close>

definition int_field :: "string list \<Rightarrow> nat \<Rightarrow> exn + pyval" where
  "int_field fields i =
     (if length fields > i \<and> fields ! i \<noteq> [] \<and> str_isdigit (str_strip (fields ! i))
      then bind (py_int (fields ! i)) (\<lambda>n. Inr (PyInt n))
      else Inr (PyInt 0))"

text \<open>\<open>str(fields[11]).strip() if len(fields) > 11 and fields[11] else ""\<close>\<close>

definition technology_field :: "string list \<Rightarrow> nat \<Rightarrow> exn + pyval" where
  "technology_field fields i =
     (if length fields > i \<and> fields ! i \<noteq> [] then Inr (PyStr (str_strip (fields ! i)))
      else Inr (PyStr []))"

text \<open>\<open>parse_frequency(fields[13]) if len(fields) > 13 else 0\<close>\<close>

definition frequency_field :: "string list \<Rightarrow> nat \<Rightarrow> exn + pyval" where
  "frequency_field fields i =
     (if length fields > i then Inr (parse_frequency (fields ! i)) else Inr (PyInt 0))"

text \<open>A dict display evaluates its entries from the first to the last; the first
  exception ends the evaluation. The keys of both displays are distinct, so the dict
  holds the entries in the order of the display.\<close>

fun build :: "(string \<times> (exn + pyval)) list \<Rightarrow> exn + dict" where
  "build [] = Inr []"
| "build ((k, r) # es) = bind r (\<lambda>v. bind (build es) (\<lambda>d. Inr ((k, v) # d)))"

subsection \<open>\<open>parse_inverter_data\<close>\<close>

definition inverter_specs :: "string list \<Rightarrow> (string \<times> (exn + pyval)) list" where
  "inverter_specs fields =
    [(''Manufacturer'', str_field fields 1),
     (''Model'', str_field fields 2),
     (''File_Name'', str_field fields 3),
     (''Data_Source'', str_field fields 4),
     (''Nominal_AC_Power_kW'', float_field fields 7),
     (''Maximum_AC_Power_kW'', float_field fields 8),
     (''Nominal_AC_current_A'', float_field fields 9),
     (''Maximum_AC_current_A'', float_field fields 10),
     (''Nominal_AC_Voltage_V'', float_field fields 11),
     (''Phase'', str_field fields 12),
     (''Frequency_Hz'', frequency_field fields 13),
     (''Power_threshold_W'', float_field fields 17),
     (''Nominal_MPP_Voltage_V'', float_field fields 18),
     (''Min_MPP_Voltage_V'', float_field fields 19),
     (''Max_DC_Voltage_V'', float_field fields 20),
     (''Max_DC_Current_A'', float_field fields 24),
     (''Total_String_Inputs'', float_field fields 29),
     (''Total_MPPT'', float_field fields 30),
     (''Night_Consumption_W'', float_field fields 39)]"

text \<open>The result is \<open>Inr\<close> the dict returned, or \<open>Inl\<close> the diagnostic given to
  \<open>st.error\<close> in the handler, which then returns \<open>None\<close>.\<close>

definition parse_inverter_data :: "string \<Rightarrow> diagnostic + dict" where
  "parse_inverter_data raw_data =
     (case build (inverter_specs (str_split CHR '';'' raw_data)) of
        Inl e \<Rightarrow> Inl (StError ''Error parsing inverter data: '' e)
      | Inr d \<Rightarrow> Inr d)"

subsection \<open>\<open>parse_solar_panel_data\<close>\<close>

definition panel_specs :: "string list \<Rightarrow> (string \<times> (exn + pyval)) list" where
  "panel_specs fields =
    [(''Manufacturer'', str_field fields 1),
     (''Model'', str_field fields 2),
     (''File_Name'', str_field fields 3),
     (''Data_Source'', str_field fields 4),
     (''Nominal_Power_W'', float_field fields 7),
     (''Technology'', technology_field fields 11),
     (''Cells_in_Series'', int_field fields 12),
     (''Cells_in_Parallel'', int_field fields 13),
     (''Maximum_Voltage_IEC'', float_field fields 35),
     (''NOCT_C'', float_field fields 15),
     (''Vmp_V'', float_field fields 16),
     (''Imp_A'', float_field fields 17),
     (''Voc_V'', float_field fields 18),
     (''Isc_A'', float_field fields 19),
     (''Current_Temp_Coeff'', float_field fields 20),
     (''Power_Temp_Coeff'', float_field fields 22),
     (''Module_Length'', float_field fields 40),
     (''Module_Width'', float_field fields 41),
     (''Module_Weight'', float_field fields 43)]"

text \<open>The statements after the dict display: the area, then the efficiency.\<close>

definition efficiency :: "dict \<Rightarrow> exn + dict" where
  "efficiency specs =
     bind (getitem specs ''Panel_Area_m2'') (\<lambda>area.
     bind (py_gt_int area 0) (\<lambda>positive.
       if positive then
         bind (getitem specs ''Nominal_Power_W'') (\<lambda>power.
         bind (getitem specs ''Panel_Area_m2'') (\<lambda>area'.
         bind (py_mul area' (PyInt 1000)) (\<lambda>denom.
         bind (py_truediv power denom) (\<lambda>ratio.
         bind (py_mul ratio (PyInt 100)) (\<lambda>percent.
         bind (py_round percent 2) (\<lambda>eff.
           Inr (setitem specs ''Efficiency_percent'' eff)))))))
       else Inr (setitem specs ''Efficiency_percent'' (PyInt 0))))"

definition derive :: "dict \<Rightarrow> exn + dict" where
  "derive specs =
     bind (getitem specs ''Module_Length'') (\<lambda>len.
     bind (py_truediv len (PyInt 1000)) (\<lambda>length_m.
     bind (getitem specs ''Module_Width'') (\<lambda>wid.
     bind (py_truediv wid (PyInt 1000)) (\<lambda>width_m.
     bind (py_mul length_m width_m) (\<lambda>product.
     bind (py_round product 3) (\<lambda>area.
       efficiency (setitem specs ''Panel_Area_m2'' area)))))))"

definition parse_solar_panel_data :: "string \<Rightarrow> diagnostic + dict" where
  "parse_solar_panel_data raw_data =
     (case bind (build (panel_specs (str_split CHR '';'' raw_data))) derive of
        Inl e \<Rightarrow> Inl (StError ''Error parsing solar panel data: '' e)
      | Inr d \<Rightarrow> Inr d)"

subsection \<open>The two loops of \<open>main\<close>\<close>

text \<open>
  The input is the content of the text areas, in the order of the loop. A text area
  left empty is skipped before any parsing (\<open>if data:\<close>); a parse that returned \<open>None\<close> or
  an empty dict is skipped too (\<open>if parsed_data:\<close>). The state is the list collected so
  far and the diagnostics shown so far.
\<close>

definition loop_step ::
  "(string \<Rightarrow> diagnostic + dict) \<Rightarrow> dict list \<times> diagnostic list \<Rightarrow> string
     \<Rightarrow> dict list \<times> diagnostic list" where
  "loop_step parse st data =
     (if data \<noteq> [] then
        (case parse data of
           Inl msg \<Rightarrow> (fst st, snd st @ [msg])
         | Inr parsed_data \<Rightarrow>
             if parsed_data \<noteq> [] then (fst st @ [parsed_data], snd st) else st)
      else st)"

definition inverter_data :: "string list \<Rightarrow> dict list \<times> diagnostic list" where
  "inverter_data inputs = foldl (loop_step parse_inverter_data) ([], []) inputs"

definition panel_data :: "string list \<Rightarrow> dict list \<times> diagnostic list" where
  "panel_data inputs = foldl (loop_step parse_solar_panel_data) ([], []) inputs"

subsection \<open>The column orders of \<open>main\<close>\<close>

text \<open>The two \<open>column_order\<close> lists of \<open>main\<close>: the keys each kind of record is
  expected to hold.\<close>

definition inverter_column_order :: "string list" where
  "inverter_column_order =
    [''Manufacturer'', ''Model'', ''File_Name'', ''Data_Source'',
     ''Nominal_AC_Power_kW'', ''Maximum_AC_Power_kW'',
     ''Nominal_AC_current_A'', ''Maximum_AC_current_A'',
     ''Nominal_AC_Voltage_V'', ''Phase'', ''Frequency_Hz'',
     ''Power_threshold_W'', ''Nominal_MPP_Voltage_V'',
     ''Min_MPP_Voltage_V'', ''Max_DC_Voltage_V'',
     ''Max_DC_Current_A'', ''Total_MPPT'',
     ''Total_String_Inputs'', ''Night_Consumption_W'']"

definition panel_column_order :: "string list" where
  "panel_column_order =
    [''Manufacturer'', ''Model'', ''File_Name'', ''Data_Source'',
     ''Nominal_Power_W'', ''Technology'', ''Cells_in_Series'',
     ''Cells_in_Parallel'', ''Maximum_Voltage_IEC'', ''NOCT_C'',
     ''Vmp_V'', ''Imp_A'', ''Voc_V'', ''Isc_A'',
     ''Current_Temp_Coeff'', ''Power_Temp_Coeff'',
     ''Module_Length'', ''Module_Width'', ''Module_Weight'',
     ''Panel_Area_m2'', ''Efficiency_percent'']"

subsection \<open>The dict displays as tables\<close>

text \<open>
  Each entry of the two dict displays is one of five conditional expressions applied to
  one position of \<open>fields\<close>. The tables below list, for every key, which expression and
  which position; \<open>inverter_specs_layout\<close> and \<open>panel_specs_layout\<close> show that the
  displays are these tables, entry by entry and in the same order.
\<close>

datatype field_kind = KStr | KFloat | KInt | KTechnology | KFrequency

fun entry :: "string list \<Rightarrow> string \<times> field_kind \<times> nat \<Rightarrow> string \<times> (exn + pyval)" where
  "entry fields (k, KStr, i) = (k, str_field fields i)"
| "entry fields (k, KFloat, i) = (k, float_field fields i)"
| "entry fields (k, KInt, i) = (k, int_field fields i)"
| "entry fields (k, KTechnology, i) = (k, technology_field fields i)"
| "entry fields (k, KFrequency, i) = (k, frequency_field fields i)"


definition inverter_layout :: "(string \<times> field_kind \<times> nat) list" where
  "inverter_layout =
    [(''Manufacturer'', KStr, 1),
     (''Model'', KStr, 2),
     (''File_Name'', KStr, 3),
     (''Data_Source'', KStr, 4),
     (''Nominal_AC_Power_kW'', KFloat, 7),
     (''Maximum_AC_Power_kW'', KFloat, 8),
     (''Nominal_AC_current_A'', KFloat, 9),
     (''Maximum_AC_current_A'', KFloat, 10),
     (''Nominal_AC_Voltage_V'', KFloat, 11),
     (''Phase'', KStr, 12),
     (''Frequency_Hz'', KFrequency, 13),
     (''Power_threshold_W'', KFloat, 17),
     (''Nominal_MPP_Voltage_V'', KFloat, 18),
     (''Min_MPP_Voltage_V'', KFloat, 19),
     (''Max_DC_Voltage_V'', KFloat, 20),
     (''Max_DC_Current_A'', KFloat, 24),
     (''Total_String_Inputs'', KFloat, 29),
     (''Total_MPPT'', KFloat, 30),
     (''Night_Consumption_W'', KFloat, 39)]"

definition panel_layout :: "(string \<times> field_kind \<times> nat) list" where
  "panel_layout =
    [(''Manufacturer'', KStr, 1),
     (''Model'', KStr, 2),
     (''File_Name'', KStr, 3),
     (''Data_Source'', KStr, 4),
     (''Nominal_Power_W'', KFloat, 7),
     (''Technology'', KTechnology, 11),
     (''Cells_in_Series'', KInt, 12),
     (''Cells_in_Parallel'', KInt, 13),
     (''Maximum_Voltage_IEC'', KFloat, 35),
     (''NOCT_C'', KFloat, 15),
     (''Vmp_V'', KFloat, 16),
     (''Imp_A'', KFloat, 17),
     (''Voc_V'', KFloat, 18),
     (''Isc_A'', KFloat, 19),
     (''Current_Temp_Coeff'', KFloat, 20),
     (''Power_Temp_Coeff'', KFloat, 22),
     (''Module_Length'', KFloat, 40),
     (''Module_Width'', KFloat, 41),
     (''Module_Weight'', KFloat, 43)]"




text \<open>The records of a loop and the diagnostics it showed.\<close>

definition records :: "dict list \<times> diagnostic list \<Rightarrow> dict list" where
  "records st = fst st"



subsection \<open>Closed forms of the derived attributes\<close>

text \<open>The float that \<open>round(length_m * width_m, 3)\<close> yields for a length and a width
  given as floats, and the value stored under \<open>Efficiency_percent\<close> for a power and an
  area given as floats. \<open>derive_total\<close> below shows that \<open>derive\<close> computes exactly
  these.\<close>

definition area_of :: "pyfloat \<Rightarrow> pyfloat \<Rightarrow> pyfloat" where
  "area_of lf wd = fround (fmul (fdiv lf (Fin 1000)) (fdiv wd (Fin 1000))) 3"

definition efficiency_of :: "pyfloat \<Rightarrow> pyfloat \<Rightarrow> pyval" where
  "efficiency_of pf a =
     (if fless (Fin 0) a then PyFloat (fround (fmul (fdiv pf (fmul a (Fin 1000))) (Fin 100)) 2)
      else PyInt 0)"

section \<open>Lemmas about the string methods\<close>

lemma str_split_not_Nil: "str_split sep s \<noteq> []"
  by (induction s) (auto split: list.splits)

lemma isspace_lower_chr: "isspace c \<Longrightarrow> lower_chr c = c"
  by (auto simp: isspace_def lower_chr_def Let_def)

lemma dropWhile_keeps:
  "xs \<noteq> [] \<Longrightarrow> \<not> P (hd xs) \<Longrightarrow> \<exists>ps'. dropWhile P (ps @ xs @ ss) = ps' @ xs @ ss"
proof (induction ps)
  case Nil
  then have "dropWhile P (xs @ ss) = xs @ ss"
    by (cases xs) auto
  then show ?case by (intro exI[of _ "[]"]) simp
next
  case (Cons p ps)
  show ?case
  proof (cases "P p")
    case True
    with Cons show ?thesis by simp
  next
    case False
    then show ?thesis by (intro exI[of _ "p # ps"]) simp
  qed
qed

lemma sublist_str_strip:
  assumes "sublist xs s" "xs \<noteq> []" "\<not> isspace (hd xs)" "\<not> isspace (last xs)"
  shows "sublist xs (str_strip s)"
proof -
  from assms(1) obtain ps ss where s: "s = ps @ xs @ ss"
    by (auto simp: sublist_def)
  from dropWhile_keeps[of xs isspace ps ss] assms(2,3) obtain ps' where
    l: "dropWhile isspace (ps @ xs @ ss) = ps' @ xs @ ss" by blast
  have "rev xs \<noteq> []" "\<not> isspace (hd (rev xs))"
    using assms(2,4) by (simp_all add: hd_rev)
  from dropWhile_keeps[of "rev xs" isspace "rev ss" "rev ps'"] this obtain ss' where
    r: "dropWhile isspace (rev ss @ rev xs @ rev ps') = ss' @ rev xs @ rev ps'" by blast
  have "str_strip s = ps' @ xs @ rev ss'"
    by (simp add: str_strip_def s l r)
  then show ?thesis by simp
qed

lemma marker_not_space:
  assumes "map lower_chr xs = ''50/60''"
  shows "xs \<noteq> [] \<and> \<not> isspace (hd xs) \<and> \<not> isspace (last xs)"
proof -
  from assms obtain a b c d e where xs: "xs = [a, b, c, d, e]"
    and a: "lower_chr a = CHR ''5''" and e: "lower_chr e = CHR ''0''"
    by (auto simp: map_eq_Cons_conv)
  have "\<not> isspace a"
  proof
    assume "isspace a"
    then have "a = CHR ''5''" using a isspace_lower_chr by metis
    with \<open>isspace a\<close> show False by (simp add: isspace_def)
  qed
  moreover have "\<not> isspace e"
  proof
    assume "isspace e"
    then have "e = CHR ''0''" using e isspace_lower_chr by metis
    with \<open>isspace e\<close> show False by (simp add: isspace_def)
  qed
  ultimately show ?thesis by (simp add: xs)
qed

lemma sublist_map_obtain:
  assumes "sublist m (map f s)"
  shows "\<exists>ps0 xs ss0. s = ps0 @ xs @ ss0 \<and> map f xs = m"
proof -
  from assms obtain ps ss where "map f s = ps @ m @ ss"
    unfolding sublist_def by (elim exE)
  then have "\<exists>us vs. s = us @ vs \<and> ps = map f us \<and> m @ ss = map f vs"
    by (simp only: map_eq_append_conv)
  then obtain us vs where s: "s = us @ vs" and "m @ ss = map f vs"
    by (elim exE conjE)
  then have "\<exists>a b. vs = a @ b \<and> m = map f a \<and> ss = map f b"
    by (simp only: append_eq_map_conv)
  then obtain a b where "vs = a @ b" "m = map f a"
    by (elim exE conjE)
  with s have "s = us @ a @ b \<and> map f a = m" by simp
  then show ?thesis by (intro exI)
qed

lemma marker_survives:
  assumes "sublist ''50/60'' (str_lower tok)"
  shows "sublist ''50/60'' (str_lower (str_strip tok))"
proof -
  from assms have "sublist ''50/60'' (map lower_chr tok)"
    by (simp only: str_lower_def)
  from sublist_map_obtain[OF this] obtain ps0 xs ss0
    where tok: "tok = ps0 @ xs @ ss0" and xs: "map lower_chr xs = ''50/60''"
    by (elim exE conjE)
  have "sublist xs tok" unfolding tok by (rule sublist_appendI)
  with marker_not_space[OF xs] have "sublist xs (str_strip tok)"
    by (intro sublist_str_strip) (elim conjE, assumption)+
  then have "sublist (map lower_chr xs) (map lower_chr (str_strip tok))"
    by (rule map_mono_sublist)
  then show ?thesis by (simp only: xs str_lower_def)
qed

lemma parse_frequency_marker:
  assumes "sublist ''50/60'' (str_lower tok)"
  shows "parse_frequency tok = PyInt 50"
proof -
  have "tok \<noteq> []" using assms by (auto simp: str_lower_def)
  with marker_survives[OF assms] show ?thesis
    by (simp add: parse_frequency_def Let_def)
qed

section \<open>Lemmas about the dict displays\<close>

lemma inverter_specs_layout: "inverter_specs fields = map (entry fields) inverter_layout"
  by (simp add: inverter_specs_def inverter_layout_def)

lemma panel_specs_layout: "panel_specs fields = map (entry fields) panel_layout"
  by (simp add: panel_specs_def panel_layout_def)

lemma build_keys: "build es = Inr d \<Longrightarrow> map fst d = map fst es"
proof (induction es arbitrary: d)
  case Nil
  then show ?case by simp
next
  case (Cons e es)
  obtain k r where e: "e = (k, r)" by (cases e)
  from Cons.prems obtain v d' where "r = Inr v" "build es = Inr d'" "d = (k, v) # d'"
    by (cases r; cases "build es") (auto simp: e)
  with Cons.IH show ?case by (simp add: e)
qed

lemma build_lookup:
  assumes "build es = Inr d" "distinct (map fst es)" "(k, r) \<in> set es"
  shows "\<exists>v. r = Inr v \<and> map_of d k = Some v"
  using assms
proof (induction es arbitrary: d)
  case Nil
  then show ?case by simp
next
  case (Cons e es)
  obtain k' r' where e: "e = (k', r')" by (cases e)
  from Cons.prems(1) obtain v' d' where b: "r' = Inr v'" "build es = Inr d'" "d = (k', v') # d'"
    by (cases r'; cases "build es") (auto simp: e)
  show ?case
  proof (cases "(k, r) = e")
    case True
    then show ?thesis using b by (simp add: e)
  next
    case False
    with Cons.prems(3) have in_es: "(k, r) \<in> set es" by simp
    with Cons.prems(2) have "k \<noteq> k'" by (force simp: e)
    moreover from Cons.IH[OF b(2) _ in_es] Cons.prems(2)
    obtain v where "r = Inr v" "map_of d' k = Some v" by auto
    ultimately show ?thesis by (simp add: b)
  qed
qed






lemma entry_key: "fst (entry fields t) = fst t"
  by (cases "(fields, t)" rule: entry.cases) simp_all




section \<open>Lookups in a parsed record\<close>

lemma inverter_layout_distinct: "distinct (map fst inverter_layout)"
  by (simp add: inverter_layout_def)

lemma panel_layout_distinct: "distinct (map fst panel_layout)"
  by (simp add: panel_layout_def)

lemma parse_inverter_data_Inr:
  "parse_inverter_data raw = Inr d \<longleftrightarrow> build (inverter_specs (str_split CHR '';'' raw)) = Inr d"
  by (simp add: parse_inverter_data_def split: sum.splits)

lemma inverter_lookup:
  assumes "parse_inverter_data raw = Inr d" "t \<in> set inverter_layout"
  shows "\<exists>v. snd (entry (str_split CHR '';'' raw) t) = Inr v \<and> map_of d (fst t) = Some v"
proof -
  let ?fields = "str_split CHR '';'' raw"
  let ?es = "map (entry ?fields) inverter_layout"
  have b: "build ?es = Inr d"
    using assms(1) by (simp add: parse_inverter_data_Inr inverter_specs_layout)
  have "map fst ?es = map fst inverter_layout"
    by (simp add: entry_key cong: map_cong)
  then have dist: "distinct (map fst ?es)"
    by (simp only: inverter_layout_distinct)
  have "(fst t, snd (entry ?fields t)) \<in> set ?es"
  proof -
    have "entry ?fields t \<in> set ?es" using assms(2) by simp
    moreover have "entry ?fields t = (fst t, snd (entry ?fields t))"
      by (metis entry_key prod.collapse)
    ultimately show ?thesis by simp
  qed
  from build_lookup[OF b dist this] show ?thesis .
qed

section \<open>Frequency normalisation\<close>

text \<open>
  Claim C2. A frequency token that contains \<open>50/60\<close>, compared after lowercasing and
  with any text around it, is normalised to 50; this is the value of \<open>Frequency_Hz\<close>
  in every record parsed from a line whose field 13 is such a token. The string \<open>50\<close>
  is normalised to the float 50.
\<close>

theorem frequency_dual_rating:
  "(sublist ''50/60'' (str_lower tok) \<longrightarrow> parse_frequency tok = PyInt 50)
   \<and> (parse_inverter_data raw = Inr d
        \<and> 13 < length (str_split CHR '';'' raw)
        \<and> sublist ''50/60'' (str_lower (str_split CHR '';'' raw ! 13))
      \<longrightarrow> map_of d ''Frequency_Hz'' = Some (PyInt 50))
   \<and> parse_frequency ''50'' = PyFloat (Fin 50)"
proof (intro conjI impI)
  assume "sublist ''50/60'' (str_lower tok)"
  then show "parse_frequency tok = PyInt 50" by (rule parse_frequency_marker)
next
  let ?fields = "str_split CHR '';'' raw"
  assume a: "parse_inverter_data raw = Inr d \<and> 13 < length ?fields
    \<and> sublist ''50/60'' (str_lower (?fields ! 13))"
  have "(''Frequency_Hz'', KFrequency, 13) \<in> set inverter_layout"
    by (simp add: inverter_layout_def)
  from inverter_lookup[OF _ this] a
  obtain v where "frequency_field ?fields 13 = Inr v" "map_of d ''Frequency_Hz'' = Some v"
    by auto
  moreover have "frequency_field ?fields 13 = Inr (PyInt 50)"
    using a by (simp add: frequency_field_def parse_frequency_marker)
  ultimately show "map_of d ''Frequency_Hz'' = Some (PyInt 50)" by simp
next
  show "parse_frequency ''50'' = PyFloat (Fin 50)" by code_simp
qed

theorem frequency_dual_rating_witness:
  "sublist ''50/60'' (str_lower '' 50/60Hz'')
   \<and> parse_frequency '' 50/60Hz'' = PyInt 50
   \<and> (\<exists>d. parse_inverter_data ''0;ACME;X1;x1.ond;Photon;;;10;11;16;17;400;3;AC 50/60 HZ;;'' = Inr d
        \<and> map_of d ''Frequency_Hz'' = Some (PyInt 50))"
proof -
  let ?raw = "''0;ACME;X1;x1.ond;Photon;;;10;11;16;17;400;3;AC 50/60 HZ;;''"
  have h1: "sublist ''50/60'' (str_lower '' 50/60Hz'')" by code_simp
  have "\<not> isl (parse_inverter_data ?raw)" by code_simp
  then obtain d where h2: "parse_inverter_data ?raw = Inr d"
    by (cases "parse_inverter_data ?raw") auto
  have h3: "13 < length (str_split CHR '';'' ?raw)" by code_simp
  have h4: "sublist ''50/60'' (str_lower (str_split CHR '';'' ?raw ! 13))" by code_simp
  from frequency_dual_rating[of "'' 50/60Hz''" ?raw d] h1 h2 h3 h4
  show ?thesis by blast
qed

section \<open>The derived attributes of a panel\<close>

lemma layout_lookup:
  assumes "build (map (entry fields) layout) = Inr specs" "distinct (map fst layout)"
    "t \<in> set layout"
  shows "\<exists>v. snd (entry fields t) = Inr v \<and> map_of specs (fst t) = Some v"
proof -
  let ?es = "map (entry fields) layout"
  have "map fst ?es = map fst layout"
    by (simp add: entry_key cong: map_cong)
  then have dist: "distinct (map fst ?es)"
    by (simp only: assms(2))
  have "(fst t, snd (entry fields t)) \<in> set ?es"
  proof -
    have "entry fields t \<in> set ?es" using assms(3) by simp
    moreover have "entry fields t = (fst t, snd (entry fields t))"
      by (metis entry_key prod.collapse)
    ultimately show ?thesis by simp
  qed
  from build_lookup[OF assms(1) dist this] show ?thesis .
qed

lemma float_field_numeric:
  "float_field fields i = Inr v \<Longrightarrow> v = PyInt 0 \<or> (\<exists>x. v = PyFloat x)"
  by (cases "py_float (fields ! i)") (auto simp: float_field_def split: if_splits)

lemma numeric_to_float:
  "v = PyInt 0 \<or> (\<exists>x. v = PyFloat x) \<Longrightarrow> \<exists>f. to_float v = Some f"
  by auto

lemma update_absent: "k \<notin> fst ` set al \<Longrightarrow> AList.update k v al = al @ [(k, v)]"
  by (induction al) auto

lemma fmul_positive_nonzero: "fless (Fin 0) a \<Longrightarrow> fmul a (Fin 1000) \<noteq> Fin 0"
  by (cases a) (auto simp: of_sign_def)

lemma efficiency_total:
  assumes "map_of specs ''Panel_Area_m2'' = Some (PyFloat a)"
    "map_of specs ''Nominal_Power_W'' = Some p" "to_float p = Some pf"
  shows "efficiency specs = Inr (setitem specs ''Efficiency_percent'' (efficiency_of pf a))"
proof (cases "fless (Fin 0) a")
  case True
  then have nz: "fmul a (Fin 1000) \<noteq> Fin 0" by (rule fmul_positive_nonzero)
  have m: "py_mul (PyFloat a) (PyInt 1000) = Inr (PyFloat (fmul a (Fin 1000)))" by simp
  have d: "py_truediv p (PyFloat (fmul a (Fin 1000))) = Inr (PyFloat (fdiv pf (fmul a (Fin 1000))))"
    using assms(3) nz by (simp add: py_truediv_def)
  show ?thesis
    using True assms(1,2) d
    by (simp add: efficiency_def getitem_def efficiency_of_def)
next
  case False
  then show ?thesis
    using assms(1) by (simp add: efficiency_def getitem_def efficiency_of_def)
qed

lemma derive_total:
  assumes "map_of specs ''Module_Length'' = Some l" "to_float l = Some lf"
    "map_of specs ''Module_Width'' = Some w" "to_float w = Some wd"
    "map_of specs ''Nominal_Power_W'' = Some p" "to_float p = Some pf"
  shows "derive specs =
    Inr (setitem (setitem specs ''Panel_Area_m2'' (PyFloat (area_of lf wd)))
          ''Efficiency_percent'' (efficiency_of pf (area_of lf wd)))"
proof -
  let ?specs1 = "setitem specs ''Panel_Area_m2'' (PyFloat (area_of lf wd))"
  have l: "py_truediv l (PyInt 1000) = Inr (PyFloat (fdiv lf (Fin 1000)))"
    using assms(2) by (simp add: py_truediv_def)
  have w: "py_truediv w (PyInt 1000) = Inr (PyFloat (fdiv wd (Fin 1000)))"
    using assms(4) by (simp add: py_truediv_def)
  have a: "map_of ?specs1 ''Panel_Area_m2'' = Some (PyFloat (area_of lf wd))"
    by (simp add: setitem_def update_conv')
  have p: "map_of ?specs1 ''Nominal_Power_W'' = Some p"
    using assms(5) by (simp add: setitem_def update_conv')
  have "derive specs = efficiency ?specs1"
    using assms(1,3) l w by (simp add: derive_def getitem_def area_of_def)
  with efficiency_total[OF a p assms(6)] show ?thesis by simp
qed

lemma panel_keys:
  assumes "build (panel_specs fields) = Inr specs"
  shows "map fst specs = map fst panel_layout"
proof -
  from build_keys[OF assms] have "map fst specs = map fst (map (entry fields) panel_layout)"
    by (simp only: panel_specs_layout)
  also have "\<dots> = map fst panel_layout"
    by (simp add: entry_key cong: map_cong)
  finally show ?thesis .
qed

lemma panel_float_lookup:
  assumes "build (panel_specs fields) = Inr specs" "(k, KFloat, i) \<in> set panel_layout"
  shows "\<exists>v f. float_field fields i = Inr v \<and> map_of specs k = Some v \<and> to_float v = Some f"
proof -
  from assms(1) have b: "build (map (entry fields) panel_layout) = Inr specs"
    by (simp only: panel_specs_layout)
  from layout_lookup[OF b panel_layout_distinct assms(2)]
  obtain v where v: "float_field fields i = Inr v" "map_of specs k = Some v"
    by auto
  from float_field_numeric[OF v(1)] have "\<exists>f. to_float v = Some f"
    by (rule numeric_to_float)
  with v show ?thesis by blast
qed

text \<open>A panel line yields a record exactly when its dict display is evaluated without
  an exception: the statements that follow never raise. The record is the display
  followed by the two derived attributes.\<close>

lemma panel_record:
  assumes "build (panel_specs (str_split CHR '';'' raw)) = Inr specs"
  shows "\<exists>l lf w wd p pf.
    map_of specs ''Module_Length'' = Some l \<and> to_float l = Some lf
    \<and> map_of specs ''Module_Width'' = Some w \<and> to_float w = Some wd
    \<and> map_of specs ''Nominal_Power_W'' = Some p \<and> to_float p = Some pf
    \<and> parse_solar_panel_data raw =
        Inr (specs @ [(''Panel_Area_m2'', PyFloat (area_of lf wd)),
                      (''Efficiency_percent'', efficiency_of pf (area_of lf wd))])"
proof -
  let ?fields = "str_split CHR '';'' raw"
  have "(''Module_Length'', KFloat, 40) \<in> set panel_layout"
    by (simp add: panel_layout_def)
  from panel_float_lookup[OF assms this]
  obtain l lf where l: "map_of specs ''Module_Length'' = Some l" "to_float l = Some lf"
    by blast
  have "(''Module_Width'', KFloat, 41) \<in> set panel_layout"
    by (simp add: panel_layout_def)
  from panel_float_lookup[OF assms this]
  obtain w wd where w: "map_of specs ''Module_Width'' = Some w" "to_float w = Some wd"
    by blast
  have "(''Nominal_Power_W'', KFloat, 7) \<in> set panel_layout"
    by (simp add: panel_layout_def)
  from panel_float_lookup[OF assms this]
  obtain p pf where p: "map_of specs ''Nominal_Power_W'' = Some p" "to_float p = Some pf"
    by blast
  have keys: "fst ` set specs = set (map fst panel_layout)"
    using panel_keys[OF assms] by (metis set_map)
  have k1: "''Panel_Area_m2'' \<notin> fst ` set specs"
    unfolding keys by (simp add: panel_layout_def)
  have k2: "''Efficiency_percent'' \<notin> fst ` set (specs @ [(''Panel_Area_m2'', v)])" for v
  proof -
    have "''Efficiency_percent'' \<notin> fst ` set specs"
      unfolding keys by (simp add: panel_layout_def)
    then show ?thesis by simp
  qed
  have "derive specs =
    Inr (specs @ [(''Panel_Area_m2'', PyFloat (area_of lf wd)),
                  (''Efficiency_percent'', efficiency_of pf (area_of lf wd))])"
    unfolding derive_total[OF l w p] setitem_def update_absent[OF k1] update_absent[OF k2]
    by simp
  then have "parse_solar_panel_data raw =
    Inr (specs @ [(''Panel_Area_m2'', PyFloat (area_of lf wd)),
                  (''Efficiency_percent'', efficiency_of pf (area_of lf wd))])"
    using assms by (simp add: parse_solar_panel_data_def)
  with l w p show ?thesis by blast
qed

lemma panel_parsed:
  assumes "parse_solar_panel_data raw = Inr d"
  shows "\<exists>specs. build (panel_specs (str_split CHR '';'' raw)) = Inr specs"
  using assms
  by (cases "build (panel_specs (str_split CHR '';'' raw))")
    (auto simp: parse_solar_panel_data_def)





section \<open>Panel area\<close>



section \<open>Panel efficiency\<close>




section \<open>A negative dimension\<close>







section \<open>The loops of \<open>main\<close>\<close>

lemma loop_step_state:
  "loop_step parse st data =
     (fst st @ fst (loop_step parse ([], []) data), snd st @ snd (loop_step parse ([], []) data))"
  by (cases "parse data") (simp_all add: loop_step_def)

lemma loop_state:
  "foldl (loop_step parse) st inputs =
     (fst st @ fst (foldl (loop_step parse) ([], []) inputs),
      snd st @ snd (foldl (loop_step parse) ([], []) inputs))"
proof (induction inputs arbitrary: st)
  case Nil
  then show ?case by simp
next
  case (Cons x xs)
  let ?s = "loop_step parse ([], []) x"
  have "foldl (loop_step parse) st (x # xs) = foldl (loop_step parse) (loop_step parse st x) xs"
    by simp
  also have "\<dots> = (fst (loop_step parse st x) @ fst (foldl (loop_step parse) ([], []) xs),
      snd (loop_step parse st x) @ snd (foldl (loop_step parse) ([], []) xs))"
    by (rule Cons.IH)
  also have "\<dots> = (fst st @ fst ?s @ fst (foldl (loop_step parse) ([], []) xs),
      snd st @ snd ?s @ snd (foldl (loop_step parse) ([], []) xs))"
    by (subst (1 2) loop_step_state) simp
  also have "\<dots> = (fst st @ fst (foldl (loop_step parse) ?s xs),
      snd st @ snd (foldl (loop_step parse) ?s xs))"
    by (subst (3 4) Cons.IH) simp
  finally show ?case by simp
qed

lemma loop_append:
  "foldl (loop_step parse) ([], []) (xs @ ys) =
     (fst (foldl (loop_step parse) ([], []) xs) @ fst (foldl (loop_step parse) ([], []) ys),
      snd (foldl (loop_step parse) ([], []) xs) @ snd (foldl (loop_step parse) ([], []) ys))"
  by (simp only: foldl_append) (rule loop_state)


lemma inverter_record_keys:
  assumes "parse_inverter_data raw = Inr d"
  shows "map fst d = map fst inverter_layout"
proof -
  from assms have "build (inverter_specs (str_split CHR '';'' raw)) = Inr d"
    by (simp add: parse_inverter_data_Inr)
  from build_keys[OF this] have "map fst d = map fst (map (entry (str_split CHR '';'' raw)) inverter_layout)"
    by (simp only: inverter_specs_layout)
  also have "\<dots> = map fst inverter_layout"
    by (simp add: entry_key cong: map_cong)
  finally show ?thesis .
qed

lemma panel_record_keys:
  assumes "parse_solar_panel_data raw = Inr d"
  shows "map fst d = map fst panel_layout @ [''Panel_Area_m2'', ''Efficiency_percent'']"
proof -
  from panel_parsed[OF assms] obtain specs
    where b: "build (panel_specs (str_split CHR '';'' raw)) = Inr specs" by blast
  from panel_record[OF b] assms obtain x y where
    "d = specs @ [(''Panel_Area_m2'', x), (''Efficiency_percent'', y)]"
    by auto
  then show ?thesis by (simp add: panel_keys[OF b])
qed



lemma inverter_keys_are_columns:
  "set (map fst inverter_layout) = set inverter_column_order"
  "length inverter_layout = 19"
  by (simp_all add: inverter_layout_def inverter_column_order_def insert_commute)

lemma panel_keys_are_columns:
  "set (map fst panel_layout @ [''Panel_Area_m2'', ''Efficiency_percent'']) = set panel_column_order"
  "length panel_layout = 19"
  "distinct (map fst panel_layout @ [''Panel_Area_m2'', ''Efficiency_percent''])"
  by (simp_all add: panel_layout_def panel_column_order_def insert_commute)

lemma loop_records_member:
  assumes "d \<in> set (fst (foldl (loop_step parse) ([], []) inputs))"
  shows "\<exists>data. parse data = Inr d"
  using assms
proof (induction inputs rule: rev_induct)
  case Nil
  then show ?case by simp
next
  case (snoc x xs)
  have "fst (foldl (loop_step parse) ([], []) (xs @ [x])) =
    fst (foldl (loop_step parse) ([], []) xs) @ fst (foldl (loop_step parse) ([], []) [x])"
    by (simp only: loop_append fst_conv)
  with snoc.prems have "d \<in> set (fst (foldl (loop_step parse) ([], []) xs))
    \<or> d \<in> set (fst (loop_step parse ([], []) x))"
    by auto
  then show ?case
  proof
    assume "d \<in> set (fst (foldl (loop_step parse) ([], []) xs))"
    then show ?thesis by (rule snoc.IH)
  next
    assume "d \<in> set (fst (loop_step parse ([], []) x))"
    then have "parse x = Inr d"
      by (cases "parse x") (auto simp: loop_step_def split: if_splits)
    then show ?thesis ..
  qed
qed

section \<open>Whole records\<close>

text \<open>
  Claim C9. A parse of an inverter line either fails with a diagnostic or returns a record
  whose keys are the 19 keys of the inverter column order, each once; a parse of a panel
  line either fails with a diagnostic or returns a record whose keys are the 21 keys of the
  panel column order, each once, the two derived ones included. Every record collected by
  the two loops of \<open>main\<close> has all the keys of its kind.
\<close>

theorem whole_record_or_failure:
  "((\<exists>e. parse_inverter_data raw = Inl (StError ''Error parsing inverter data: '' e))
     \<or> (\<exists>d. parse_inverter_data raw = Inr d \<and> distinct (map fst d) \<and> length d = 19
           \<and> set (map fst d) = set inverter_column_order))
   \<and> ((\<exists>e. parse_solar_panel_data raw = Inl (StError ''Error parsing solar panel data: '' e))
     \<or> (\<exists>d. parse_solar_panel_data raw = Inr d \<and> distinct (map fst d) \<and> length d = 21
           \<and> set (map fst d) = set panel_column_order))
   \<and> (\<forall>d \<in> set (records (inverter_data inputs)).
         distinct (map fst d) \<and> length d = 19 \<and> set (map fst d) = set inverter_column_order)
   \<and> (\<forall>d \<in> set (records (panel_data inputs)).
         distinct (map fst d) \<and> length d = 21 \<and> set (map fst d) = set panel_column_order)"
proof -
  have inv: "distinct (map fst d) \<and> length d = 19 \<and> set (map fst d) = set inverter_column_order"
    if "parse_inverter_data r = Inr d" for r d
  proof -
    from inverter_record_keys[OF that] have k: "map fst d = map fst inverter_layout" .
    then have "length d = length inverter_layout" by (metis length_map)
    then have "length d = 19" by (simp only: inverter_keys_are_columns)
    moreover have "distinct (map fst d)"
      unfolding k by (rule inverter_layout_distinct)
    moreover have "set (map fst d) = set inverter_column_order"
      unfolding k by (rule inverter_keys_are_columns)
    ultimately show ?thesis by blast
  qed
  have pan: "distinct (map fst d) \<and> length d = 21 \<and> set (map fst d) = set panel_column_order"
    if "parse_solar_panel_data r = Inr d" for r d
  proof -
    from panel_record_keys[OF that]
    have k: "map fst d = map fst panel_layout @ [''Panel_Area_m2'', ''Efficiency_percent'']" .
    then have "length d = length (map fst panel_layout @ [''Panel_Area_m2'', ''Efficiency_percent''])"
      by (metis length_map)
    then have "length d = 21" by (simp add: panel_keys_are_columns)
    moreover have "distinct (map fst d)"
      unfolding k by (rule panel_keys_are_columns)
    moreover have "set (map fst d) = set panel_column_order"
      unfolding k by (rule panel_keys_are_columns)
    ultimately show ?thesis by blast
  qed
  have a: "(\<exists>e. parse_inverter_data raw = Inl (StError ''Error parsing inverter data: '' e))
     \<or> (\<exists>d. parse_inverter_data raw = Inr d \<and> distinct (map fst d) \<and> length d = 19
           \<and> set (map fst d) = set inverter_column_order)"
  proof (cases "parse_inverter_data raw")
    case (Inl m)
    then show ?thesis by (auto simp: parse_inverter_data_def split: sum.splits)
  next
    case (Inr d)
    with inv[OF Inr] show ?thesis by blast
  qed
  have b: "(\<exists>e. parse_solar_panel_data raw = Inl (StError ''Error parsing solar panel data: '' e))
     \<or> (\<exists>d. parse_solar_panel_data raw = Inr d \<and> distinct (map fst d) \<and> length d = 21
           \<and> set (map fst d) = set panel_column_order)"
  proof (cases "parse_solar_panel_data raw")
    case (Inl m)
    then show ?thesis by (auto simp: parse_solar_panel_data_def split: sum.splits)
  next
    case (Inr d)
    with pan[OF Inr] show ?thesis by blast
  qed
  have c: "\<forall>d \<in> set (records (inverter_data inputs)).
         distinct (map fst d) \<and> length d = 19 \<and> set (map fst d) = set inverter_column_order"
  proof
    fix d assume "d \<in> set (records (inverter_data inputs))"
    then obtain data where "parse_inverter_data data = Inr d"
      unfolding records_def inverter_data_def using loop_records_member by blast
    then show "distinct (map fst d) \<and> length d = 19 \<and> set (map fst d) = set inverter_column_order"
      by (rule inv)
  qed
  have d: "\<forall>d \<in> set (records (panel_data inputs)).
         distinct (map fst d) \<and> length d = 21 \<and> set (map fst d) = set panel_column_order"
  proof
    fix d assume "d \<in> set (records (panel_data inputs))"
    then obtain data where "parse_solar_panel_data data = Inr d"
      unfolding records_def panel_data_def using loop_records_member by blast
    then show "distinct (map fst d) \<and> length d = 21 \<and> set (map fst d) = set panel_column_order"
      by (rule pan)
  qed
  from a b c d show ?thesis by blast
qed

theorem whole_record_or_failure_witness:
  "records (inverter_data [''0;ACME;X1'', ''0;;;;;;;N/A'']) =
     [projr (parse_inverter_data ''0;ACME;X1'')]
   \<and> distinct (map fst (projr (parse_inverter_data ''0;ACME;X1'')))
   \<and> length (projr (parse_inverter_data ''0;ACME;X1'')) = 19
   \<and> set (map fst (projr (parse_inverter_data ''0;ACME;X1''))) = set inverter_column_order
   \<and> records (panel_data ['';Sun;P1;;;;;350'']) =
     [projr (parse_solar_panel_data '';Sun;P1;;;;;350'')]
   \<and> distinct (map fst (projr (parse_solar_panel_data '';Sun;P1;;;;;350'')))
   \<and> length (projr (parse_solar_panel_data '';Sun;P1;;;;;350'')) = 21
   \<and> set (map fst (projr (parse_solar_panel_data '';Sun;P1;;;;;350'')))
       = set panel_column_order"
proof -
  let ?i = "projr (parse_inverter_data ''0;ACME;X1'')"
  let ?p = "projr (parse_solar_panel_data '';Sun;P1;;;;;350'')"
  have ri: "records (inverter_data [''0;ACME;X1'', ''0;;;;;;;N/A'']) = [?i]"
    by code_simp
  have rp: "records (panel_data ['';Sun;P1;;;;;350'']) = [?p]"
    by code_simp
  from whole_record_or_failure[of "[]" "[''0;ACME;X1'', ''0;;;;;;;N/A'']"]
  have "\<forall>d \<in> set (records (inverter_data [''0;ACME;X1'', ''0;;;;;;;N/A''])).
         distinct (map fst d) \<and> length d = 19 \<and> set (map fst d) = set inverter_column_order"
    by blast
  then have i: "distinct (map fst ?i) \<and> length ?i = 19
    \<and> set (map fst ?i) = set inverter_column_order"
    unfolding ri by simp
  from whole_record_or_failure[of "[]" "['';Sun;P1;;;;;350'']"]
  have "\<forall>d \<in> set (records (panel_data ['';Sun;P1;;;;;350''])).
         distinct (map fst d) \<and> length d = 21 \<and> set (map fst d) = set panel_column_order"
    by blast
  then have p: "distinct (map fst ?p) \<and> length ?p = 21
    \<and> set (map fst ?p) = set panel_column_order"
    unfolding rp by simp
  from ri rp i p show ?thesis by blast
qed

section \<open>Aggregation\<close>



section \<open>Malformed float fields\<close>



lemma str_split_empty: "str_split sep [] = [[]]"
  by simp









section \<open>Fields out of range\<close>













section \<open>The unit marker of a frequency\<close>

lemma replace_from_Nil: "replace_from old new [] = []"
  by (subst replace_from.simps) simp

lemma replace_from_skip:
  "old \<noteq> [] \<Longrightarrow> \<not> prefix old (c # cs) \<Longrightarrow>
     replace_from old new (c # cs) = c # replace_from old new cs"
  by (subst replace_from.simps) simp

lemma replace_hz_absent: "\<not> sublist ''hz'' s \<Longrightarrow> replace_from ''hz'' [] s = s"
proof (induction s)
  case Nil
  then show ?case by (simp add: replace_from_Nil)
next
  case (Cons c cs)
  from Cons.prems have np: "\<not> prefix ''hz'' (c # cs)" and ns: "\<not> sublist ''hz'' cs"
    by (simp_all add: sublist_Cons_right)
  have "replace_from ''hz'' [] (c # cs) = c # replace_from ''hz'' [] cs"
    by (rule replace_from_skip[OF _ np]) simp
  with Cons.IH[OF ns] show ?case by simp
qed

lemma replace_hz_trailing:
  "\<not> sublist ''hz'' body \<Longrightarrow> replace_from ''hz'' [] (body @ ''hz'') = body"
proof (induction body)
  case Nil
  have "replace_from ''hz'' [] ''hz'' = replace_from ''hz'' [] []"
    by (subst replace_from.simps) simp
  then show ?case by (simp add: replace_from_Nil)
next
  case (Cons c cs)
  from Cons.prems have np: "\<not> prefix ''hz'' (c # cs)" and ns: "\<not> sublist ''hz'' cs"
    by (simp_all add: sublist_Cons_right)
  have "\<not> prefix ''hz'' (c # cs @ ''hz'')"
    using np by (cases cs) auto
  then have "replace_from ''hz'' [] (c # cs @ ''hz'') = c # replace_from ''hz'' [] (cs @ ''hz'')"
    by (intro replace_from_skip) simp_all
  with Cons.IH[OF ns] show ?case by simp
qed

lemma py_float_Nil: "py_float [] = Inl (ValueError_float [])"
  by code_simp

text \<open>
  Claim C3 states that a token whose \<open>hz\<close> is not at the end, such as \<open>1hz2\<close>, is refused
  by the float conversion and normalised to 0. The source removes every occurrence of
  \<open>hz\<close> with \<open>replace\<close>, so \<open>1hz2\<close> becomes \<open>12\<close> and is normalised to 12.
\<close>

theorem frequency_inner_marker_counterexample:
  "parse_frequency ''1hz2'' = PyFloat (Fin 12)"
  by code_simp

text \<open>
  Claim C3, amended. For a frequency token without \<open>50/60\<close>, the token is trimmed and
  lowercased, every occurrence of \<open>hz\<close> is removed, the rest is trimmed and converted by
  \<open>float\<close>; the result is that float, or the integer 0 when the conversion fails. A token
  that ends with its only \<open>hz\<close> is thus normalised to the float of the text before the
  marker, and a token without \<open>hz\<close> to its own float. An empty token and an absent field
  are normalised to 0; \<open>1hz2\<close> is normalised to 12.
\<close>

theorem frequency_unit_marker:
  "(\<not> sublist ''50/60'' (str_lower (str_strip tok)) \<longrightarrow>
      parse_frequency tok =
        (case py_float (str_strip (str_replace ''hz'' [] (str_lower (str_strip tok)))) of
           Inr x \<Rightarrow> PyFloat x | Inl e \<Rightarrow> PyInt 0))
   \<and> (\<not> sublist ''50/60'' (str_lower (str_strip tok))
        \<and> str_lower (str_strip tok) = body @ ''hz'' \<and> \<not> sublist ''hz'' body \<longrightarrow>
      parse_frequency tok =
        (case py_float (str_strip body) of Inr x \<Rightarrow> PyFloat x | Inl e \<Rightarrow> PyInt 0))
   \<and> (\<not> sublist ''50/60'' (str_lower (str_strip tok))
        \<and> \<not> sublist ''hz'' (str_lower (str_strip tok)) \<longrightarrow>
      parse_frequency tok =
        (case py_float (str_strip (str_lower (str_strip tok))) of
           Inr x \<Rightarrow> PyFloat x | Inl e \<Rightarrow> PyInt 0))
   \<and> (length fields \<le> 13 \<longrightarrow> frequency_field fields 13 = Inr (PyInt 0))
   \<and> parse_frequency [] = PyInt 0
   \<and> parse_frequency ''1hz2'' = PyFloat (Fin 12)"
proof -
  let ?s = "str_lower (str_strip tok)"
  have general: "parse_frequency tok =
        (case py_float (str_strip (str_replace ''hz'' [] ?s)) of
           Inr x \<Rightarrow> PyFloat x | Inl e \<Rightarrow> PyInt 0)" if "\<not> sublist ''50/60'' ?s"
  proof (cases "tok = []")
    case True
    have "str_replace ''hz'' [] [] = []"
      by (simp add: str_replace_def replace_from_Nil)
    then show ?thesis
      by (simp add: True parse_frequency_def str_strip_def str_lower_def py_float_Nil)
  next
    case False
    with that show ?thesis by (simp add: parse_frequency_def Let_def)
  qed
  have trailing: "parse_frequency tok =
        (case py_float (str_strip body) of Inr x \<Rightarrow> PyFloat x | Inl e \<Rightarrow> PyInt 0)"
    if "\<not> sublist ''50/60'' ?s \<and> ?s = body @ ''hz'' \<and> \<not> sublist ''hz'' body"
  proof -
    from that have n: "\<not> sublist ''50/60'' ?s" and e: "?s = body @ ''hz''"
      and h: "\<not> sublist ''hz'' body"
      by blast+
    have "replace_from ''hz'' [] ?s = body"
      unfolding e by (rule replace_hz_trailing[OF h])
    then have r: "str_replace ''hz'' [] ?s = body"
      by (simp add: str_replace_def)
    show ?thesis unfolding general[OF n] r ..
  qed
  have none: "parse_frequency tok =
        (case py_float (str_strip ?s) of Inr x \<Rightarrow> PyFloat x | Inl e \<Rightarrow> PyInt 0)"
    if "\<not> sublist ''50/60'' ?s \<and> \<not> sublist ''hz'' ?s"
  proof -
    from that have n: "\<not> sublist ''50/60'' ?s" and h: "\<not> sublist ''hz'' ?s"
      by blast+
    have "replace_from ''hz'' [] ?s = ?s"
      by (rule replace_hz_absent[OF h])
    then have r: "str_replace ''hz'' [] ?s = ?s"
      by (simp add: str_replace_def)
    show ?thesis unfolding general[OF n] r ..
  qed
  have absent: "frequency_field fields 13 = Inr (PyInt 0)" if "length fields \<le> 13"
    using that by (simp add: frequency_field_def)
  have empty: "parse_frequency [] = PyInt 0"
    by (simp add: parse_frequency_def)
  have inner: "parse_frequency ''1hz2'' = PyFloat (Fin 12)"
    by code_simp
  from general trailing none absent empty inner show ?thesis by blast
qed

theorem frequency_unit_marker_witness:
  "\<not> sublist ''50/60'' (str_lower (str_strip '' 60 Hz''))
   \<and> str_lower (str_strip '' 60 Hz'') = ''60 '' @ ''hz''
   \<and> \<not> sublist ''hz'' ''60 ''
   \<and> parse_frequency '' 60 Hz'' = PyFloat (Fin 60)
   \<and> \<not> sublist ''50/60'' (str_lower (str_strip ''abc''))
   \<and> \<not> sublist ''hz'' (str_lower (str_strip ''abc''))
   \<and> parse_frequency ''abc'' = PyInt 0
   \<and> length [''0'', ''ACME''] \<le> 13
   \<and> frequency_field [''0'', ''ACME''] 13 = Inr (PyInt 0)"
proof -
  have h1: "\<not> sublist ''50/60'' (str_lower (str_strip '' 60 Hz''))" by code_simp
  have h2: "str_lower (str_strip '' 60 Hz'') = ''60 '' @ ''hz''" by code_simp
  have h3: "\<not> sublist ''hz'' ''60 ''" by code_simp
  have v: "py_float (str_strip ''60 '') = Inr (Fin 60)" by code_simp
  from frequency_unit_marker[of "'' 60 Hz''" "''60 ''" "[''0'', ''ACME'']"] h1 h2 h3
  have "parse_frequency '' 60 Hz'' =
    (case py_float (str_strip ''60 '') of Inr x \<Rightarrow> PyFloat x | Inl e \<Rightarrow> PyInt 0)"
    by blast
  then have a: "parse_frequency '' 60 Hz'' = PyFloat (Fin 60)"
    by (simp add: v)
  have g1: "\<not> sublist ''50/60'' (str_lower (str_strip ''abc''))" by code_simp
  have g2: "\<not> sublist ''hz'' (str_lower (str_strip ''abc''))" by code_simp
  have u: "isl (py_float (str_strip (str_lower (str_strip ''abc''))))" by code_simp
  from frequency_unit_marker[of "''abc''" "[]" "[''0'', ''ACME'']"] g1 g2
  have "parse_frequency ''abc'' =
    (case py_float (str_strip (str_lower (str_strip ''abc''))) of
       Inr x \<Rightarrow> PyFloat x | Inl e \<Rightarrow> PyInt 0)"
    by blast
  then have b: "parse_frequency ''abc'' = PyInt 0"
    using u by (cases "py_float (str_strip (str_lower (str_strip ''abc'')))") simp_all
  have n: "length [''0'', ''ACME''] \<le> 13" by simp
  from frequency_unit_marker[of "''abc''" "[]" "[''0'', ''ACME'']"] n
  have c: "frequency_field [''0'', ''ACME''] 13 = Inr (PyInt 0)" by blast
  from h1 h2 h3 a g1 g2 b n c show ?thesis by blast
qed

section \<open>Integer fields\<close>

text \<open>
  Claim C5. The two integer fields of a panel are guarded by \<open>isdigit\<close> so that a token
  that is not a number gives 0 and the record is kept. The guard lets through tokens
  that \<open>int\<close> refuses: \<open>isdigit\<close> holds of the superscript two (U+00B2), which is no
  decimal digit for \<open>int\<close>, and \<open>strip\<close> removes the control character U+001F, which
  \<open>int\<close> does not skip. For such a token in \<open>Cells_in_Series\<close> the exception of \<open>int\<close>
  rejects the whole record.
\<close>

theorem isdigit_guard_failing_input:
  "str_isdigit (str_strip [CHR 0xB2])
   \<and> py_int [CHR 0xB2] = Inl (ValueError_int [CHR 0xB2])
   \<and> parse_solar_panel_data ('';Sun;P1;;;;;350;;;;mono;'' @ [CHR 0xB2]) =
       Inl (StError ''Error parsing solar panel data: '' (ValueError_int [CHR 0xB2]))
   \<and> str_isdigit (str_strip [CHR ''5'', CHR 0x1F])
   \<and> parse_solar_panel_data ('';Sun;P1;;;;;350;;;;mono;'' @ [CHR ''5'', CHR 0x1F]) =
       Inl (StError ''Error parsing solar panel data: ''
             (ValueError_int [CHR ''5'', CHR 0x1F]))"
  by code_simp

end
